theory Spec2Isabelle
  imports Main "HOL-Library.Multiset"
begin

section \<open>Data model of package apply\<close>

text \<open>
  A Go \<^verbatim>\<open>error\<close> is modelled by its message; \<^verbatim>\<open>nil\<close> is \<open>None\<close> in an
  \<open>error option\<close> and the right injection in a sum \<open>error + 'a\<close>.
\<close>

type_synonym error = string

text \<open>\<^verbatim>\<open>type Options struct\<close>. The field \<^verbatim>\<open>UseGreed\<close> is suffixed, as
  \<^verbatim>\<open>DefaulterApply\<close> has a field of the same name.\<close>

record Options =
  SimonConfig :: string
  DefaultSchedulerConfigFile :: string
  UseGreedOpt :: bool
  Interactive :: bool

text \<open>\<^verbatim>\<open>simonv1.Cluster\<close> and \<^verbatim>\<open>simonv1.AppInfo\<close>, with the fields that
  package apply reads.\<close>

record Cluster =
  CustomCluster :: string
  KubeConfig :: string

record AppInfo =
  Name :: string
  Path :: string
  Chart :: bool

text \<open>The \<^verbatim>\<open>Spec\<close> of \<^verbatim>\<open>simonv1.Simon\<close>, and \<^verbatim>\<open>type DefaulterApply struct\<close>,
  which holds the same three fields and two more.\<close>

record SimonSpec =
  Cluster :: Cluster
  AppList :: "AppInfo list"
  NewNode :: string

record DefaulterApply = SimonSpec +
  SchedulerConfig :: string
  UseGreed :: bool

text \<open>\<^verbatim>\<open>simontype.ResourceInfo\<close>; \<open>'res\<close> stands for the decoded resources of
  one application.\<close>

record 'res ResourceInfo =
  ResName :: string
  Resource :: 'res

section \<open>Observable behaviour\<close>

text \<open>
  \<^verbatim>\<open>Run\<close> returns an \<^verbatim>\<open>error\<close> only; everything else it does is a call into a
  collaborator or a line on standard output. The model records these, in order, as
  events. An event carries the result of the call where the control flow of
  \<^verbatim>\<open>Run\<close> depends on it.
\<close>

datatype 'pod event =
    EvNew
  | EvRunScheduler
  | EvCreateFakeCluster string
  | EvAddNewNode nat
  | EvGeneratePods "'pod list"
  | EvDaemonPods "'pod list"
  | EvSort
  | EvPrintCount string nat nat
  | EvSchedulePods "'pod list" "error option"
  | EvPrintFail string error
  | EvPrintSuccess string
  | EvReport
  | EvSaveConfigMap string "error option"
  | EvConfirm string bool
  | EvClose
  | EvPrintCongrats

section \<open>Collaborators\<close>

text \<open>
  The packages \<^verbatim>\<open>simulator\<close>, \<^verbatim>\<open>utils\<close>, \<^verbatim>\<open>chart\<close> and \<^verbatim>\<open>algo\<close>, the
  Kubernetes client libraries and the operating system are parameters of the model.
  A simulator is a value of type \<open>'sim\<close>; a method that may change the simulator
  returns the new one. The operator's replies to \<^verbatim>\<open>utils.Confirm\<close> are an input:
  \<open>confirm i j p\<close> is the reply in round \<open>i\<close> to prompt \<open>p\<close>, shown after the
  \<open>j\<close>-th application.
\<close>

record ('sim, 'pod, 'res, 'node, 'cfg, 'kc, 'cc) env =
  read_file :: "string \<Rightarrow> error + string"
  yaml_to_json :: "string \<Rightarrow> error + string"
  json_unmarshal :: "string \<Rightarrow> error + SimonSpec"
  stat :: "string \<Rightarrow> error option"
  process_chart :: "string \<Rightarrow> string \<Rightarrow> error + string"
  parse_file_path :: "string \<Rightarrow> error + string list"
  get_objects_from_files :: "string list \<Rightarrow> error + 'res"
  decode_yaml_node :: "string \<Rightarrow> 'node option"
  get_master_from_kube_config :: "string \<Rightarrow> error + string"
  build_config_from_flags :: "string \<Rightarrow> string \<Rightarrow> error + 'cfg"
  new_for_config :: "'cfg \<Rightarrow> error + 'kc"
  scheme_convert :: "error option"
  init_kube_scheduler_configuration :: "bool \<Rightarrow> string \<Rightarrow> error + 'cc"
  sim_new :: "'kc option \<Rightarrow> 'cc \<Rightarrow> error + 'sim"
  run_scheduler :: "'sim \<Rightarrow> 'sim"
  create_fake_cluster :: "string \<Rightarrow> 'sim \<Rightarrow> error + 'sim"
  add_new_node :: "'node \<Rightarrow> nat \<Rightarrow> 'sim \<Rightarrow> error + 'sim"
  generate_pods :: "'sim \<Rightarrow> 'res \<Rightarrow> 'pod list \<times> 'sim"
  daemon_pods :: "'sim \<Rightarrow> 'pod list \<times> 'sim"
  get_nodes :: "'sim \<Rightarrow> 'node list"
  priority :: "'node list \<Rightarrow> 'pod list \<Rightarrow> 'pod \<Rightarrow> nat"
  sort_Sort :: "nat list \<Rightarrow> (nat \<times> nat) list"
  pods_without_node_name :: "'pod list \<Rightarrow> nat"
  schedule_pods :: "'pod list \<Rightarrow> 'sim \<Rightarrow> error option \<times> 'sim"
  save_config_map :: "string \<Rightarrow> 'sim \<Rightarrow> error option \<times> 'sim"
  config_map_file_name :: string
  confirm :: "nat \<Rightarrow> nat \<Rightarrow> string \<Rightarrow> bool"

section \<open>The ordering step\<close>

text \<open>
  \<^verbatim>\<open>sort.Sort\<close> belongs to Go's standard library. It works on a queue through the
  methods \<^verbatim>\<open>Len\<close>, \<^verbatim>\<open>Less\<close> and \<^verbatim>\<open>Swap\<close> alone, so what it does to a queue
  is the calls of \<^verbatim>\<open>Swap\<close> it makes, in order, and these depend on the queue through
  the outcomes of \<^verbatim>\<open>Less\<close> only. It is the collaborator \<open>sort_Sort\<close>, from the keys
  that \<^verbatim>\<open>Less\<close> compares, in the order of the queue, to the pairs of positions
  swapped. Nothing is assumed of it: Go documents \<^verbatim>\<open>sort.Sort\<close> as not guaranteed to
  be stable, and \<^verbatim>\<open>Run\<close> does not call \<^verbatim>\<open>sort.Stable\<close>.
\<close>

text \<open>
  Modelled from the spec: \<^verbatim>\<open>algo.GreedQueue\<close> (its \<^verbatim>\<open>Less\<close> and \<^verbatim>\<open>Swap\<close>) is
  not among the sources; \<^verbatim>\<open>Run\<close> only shows that the batch is handed to
  \<^verbatim>\<open>sort.Sort\<close> when \<^verbatim>\<open>UseGreed\<close> is set and left alone otherwise. Following the
  contract of the ordering policy, \<^verbatim>\<open>Less\<close> compares a priority key of the pods,
  which is the collaborator \<open>priority\<close>, and \<^verbatim>\<open>Swap\<close> exchanges two pods of the
  batch. \<^verbatim>\<open>sort.Sort\<close> swaps positions below \<^verbatim>\<open>Len\<close>; any other pair, on which
  indexing the slice would panic, leaves the batch as it is.
\<close>

definition Swap :: "nat \<Rightarrow> nat \<Rightarrow> 'a list \<Rightarrow> 'a list" where
  "Swap i j xs = (if i < length xs \<and> j < length xs then xs[i := xs ! j, j := xs ! i] else xs)"

definition order_pods ::
  "('sim, 'pod, 'res, 'node, 'cfg, 'kc, 'cc) env \<Rightarrow> bool \<Rightarrow> ('pod \<Rightarrow> nat) \<Rightarrow> 'pod list \<Rightarrow>
     'pod list" where
  "order_pods E greed key pods =
     (if greed then foldl (\<lambda>ps (i, j). Swap i j ps) pods (sort_Sort E (map key pods))
      else pods)"

section \<open>Steps 0 to 4 of \<^verbatim>\<open>Run\<close>\<close>

text \<open>\<^verbatim>\<open>ParseArgsAndConfigFile\<close> overwrites every field of the receiver, so the model
  returns the new receiver.\<close>

definition ParseArgsAndConfigFile ::
  "('sim, 'pod, 'res, 'node, 'cfg, 'kc, 'cc) env \<Rightarrow> Options \<Rightarrow> error + DefaulterApply" where
  "ParseArgsAndConfigFile E opts =
     (case read_file E (SimonConfig opts) of
        Inl e \<Rightarrow> Inl (''failed to read config file('' @ SimonConfig opts @ ''): '' @ e)
      | Inr configFile \<Rightarrow>
          (case yaml_to_json E configFile of
             Inl e \<Rightarrow>
               Inl (''failed to unmarshal config file('' @ SimonConfig opts @ '') to json: '' @ e)
           | Inr configJSON \<Rightarrow>
               (case json_unmarshal E configJSON of
                  Inl e \<Rightarrow> Inl (''failed to unmarshal config json to object: '' @ e)
                | Inr spec \<Rightarrow>
                    Inr \<lparr>Cluster = Cluster spec, AppList = AppList spec, NewNode = NewNode spec,
                         SchedulerConfig = DefaultSchedulerConfigFile opts,
                         UseGreed = UseGreedOpt opts\<rparr>)))"

text \<open>The loop of \<^verbatim>\<open>Validate\<close> over the applications: the first path that
  \<^verbatim>\<open>os.Stat\<close> rejects ends it.\<close>

fun validate_apps ::
  "('sim, 'pod, 'res, 'node, 'cfg, 'kc, 'cc) env \<Rightarrow> AppInfo list \<Rightarrow> error option" where
  "validate_apps E [] = None"
| "validate_apps E (app # apps) =
     (case stat E (Path app) of
        Some e \<Rightarrow> Some (''invalid path of '' @ Name app @ '' app: '' @ e)
      | None \<Rightarrow> validate_apps E apps)"

definition Validate ::
  "('sim, 'pod, 'res, 'node, 'cfg, 'kc, 'cc) env \<Rightarrow> DefaulterApply \<Rightarrow> error option" where
  "Validate E applier =
     (let kube = KubeConfig (Cluster applier); custom = CustomCluster (Cluster applier) in
      if length kube = 0 \<and> length custom = 0 \<or> length kube \<noteq> 0 \<and> length custom \<noteq> 0
      then Some ''only one of values of both kubeConfig and customConfig must exist''
      else if length kube \<noteq> 0 \<and> stat E kube \<noteq> None
      then Some (''invalid path of kubeConfig: '' @ the (stat E kube))
      else if length custom \<noteq> 0 \<and> stat E custom \<noteq> None
      then Some (''invalid path of customConfig: '' @ the (stat E custom))
      else if length (SchedulerConfig applier) \<noteq> 0 \<and> stat E (SchedulerConfig applier) \<noteq> None
      then Some (''invalid path of scheduler config: '' @ the (stat E (SchedulerConfig applier)))
      else if length (NewNode applier) \<noteq> 0 \<and> stat E (NewNode applier) \<noteq> None
      then Some (''invalid path of newNode: '' @ the (stat E (NewNode applier)))
      else validate_apps E (AppList applier))"

text \<open>The first loop of \<^verbatim>\<open>Run\<close>: one \<^verbatim>\<open>ResourceInfo\<close> per application, in the
  order of \<^verbatim>\<open>AppList\<close>.\<close>

fun load_resources ::
  "('sim, 'pod, 'res, 'node, 'cfg, 'kc, 'cc) env \<Rightarrow> AppInfo list \<Rightarrow>
     error + 'res ResourceInfo list" where
  "load_resources E [] = Inr []"
| "load_resources E (app # apps) =
     (case (if Chart app then process_chart E (Name app) (Path app) else Inr (Path app)) of
        Inl e \<Rightarrow> Inl e
      | Inr newPath \<Rightarrow>
          (case parse_file_path E newPath of
             Inl e \<Rightarrow> Inl (''Failed to parse the application config path: '' @ e @ '' '')
           | Inr appFilePaths \<Rightarrow>
               (case get_objects_from_files E appFilePaths of
                  Inl e \<Rightarrow> Inl e
                | Inr appResource \<Rightarrow>
                    (case load_resources E apps of
                       Inl e \<Rightarrow> Inl e
                     | Inr resourceList \<Rightarrow>
                         Inr (\<lparr>ResName = Name app, Resource = appResource\<rparr> # resourceList)))))"

definition generateKubeClient ::
  "('sim, 'pod, 'res, 'node, 'cfg, 'kc, 'cc) env \<Rightarrow> DefaulterApply \<Rightarrow> error + 'kc option" where
  "generateKubeClient E applier =
     (if length (KubeConfig (Cluster applier)) = 0 then Inr None
      else
        (case get_master_from_kube_config E (KubeConfig (Cluster applier)) of
           Inl e \<Rightarrow> Inl (''Failed to parse kubeclient file: '' @ e @ '' '')
         | Inr master \<Rightarrow>
             (case build_config_from_flags E master (KubeConfig (Cluster applier)) of
                Inl e \<Rightarrow> Inl (''Unable to build config: '' @ e @ '' '')
              | Inr cfg \<Rightarrow>
                  (case new_for_config E cfg of
                     Inl e \<Rightarrow> Inl e
                   | Inr kubeClient \<Rightarrow> Inr (Some kubeClient)))))"

text \<open>\<^verbatim>\<open>getAndSetSchedulerConfig\<close>: the component configuration it builds depends on
  the receiver through \<^verbatim>\<open>UseGreed\<close> only, the options through
  \<^verbatim>\<open>SchedulerConfig\<close>.\<close>

definition getAndSetSchedulerConfig ::
  "('sim, 'pod, 'res, 'node, 'cfg, 'kc, 'cc) env \<Rightarrow> DefaulterApply \<Rightarrow> error + 'cc" where
  "getAndSetSchedulerConfig E applier =
     (case scheme_convert E of
        Some e \<Rightarrow> Inl e
      | None \<Rightarrow>
          (case init_kube_scheduler_configuration E (UseGreed applier) (SchedulerConfig applier) of
             Inl e \<Rightarrow> Inl (''failed to init kube scheduler configuration: '' @ e @ '' '')
           | Inr cc \<Rightarrow> Inr cc))"

section \<open>Step 5: the search\<close>

text \<open>How one pass through the body of the loop over \<^verbatim>\<open>resourceList\<close> ends:
  \<^verbatim>\<open>break\<close> (with the value \<^verbatim>\<open>success\<close> has then), \<^verbatim>\<open>return err\<close>, or on to the
  next application with the simulator as it is now.\<close>

datatype 'sim flow = Break bool | Return error | Next 'sim

definition schedule_one ::
  "('sim, 'pod, 'res, 'node, 'cfg, 'kc, 'cc) env \<Rightarrow> bool \<Rightarrow> bool \<Rightarrow> nat \<Rightarrow> nat \<Rightarrow>
     'res ResourceInfo \<Rightarrow> bool \<Rightarrow> 'sim \<Rightarrow> 'pod event list \<times> 'sim flow" where
  "schedule_one E greed interactive i j resourceInfo added sim =
     (let (gen, sim1) = generate_pods E sim (Resource resourceInfo);
          (dae, sim2) = (if \<not> added then daemon_pods E sim1 else ([], sim1));
          appPods = order_pods E greed (priority E (get_nodes E sim2) (gen @ dae)) (gen @ dae);
          (err, sim3) = schedule_pods E appPods sim2;
          log1 = [EvGeneratePods gen] @ (if \<not> added then [EvDaemonPods dae] else [])
               @ (if greed then [EvSort] else [])
               @ [EvPrintCount (ResName resourceInfo) (length appPods)
                    (pods_without_node_name E appPods),
                  EvSchedulePods appPods err]
      in case err of
           Some e \<Rightarrow> (log1 @ [EvPrintFail (ResName resourceInfo) e], Break False)
         | None \<Rightarrow>
             (let (serr, sim4) = save_config_map E (config_map_file_name E) sim3;
                  log2 = log1 @ [EvPrintSuccess (ResName resourceInfo), EvReport,
                                 EvSaveConfigMap (config_map_file_name E) serr];
                  prompt = ResName resourceInfo @ '' scheduled succeessfully, continue(y/n)?''
              in case serr of
                   Some e \<Rightarrow> (log2, Return e)
                 | None \<Rightarrow>
                     if interactive then
                       (if confirm E i j prompt then (log2 @ [EvConfirm prompt True], Next sim4)
                        else (log2 @ [EvConfirm prompt False], Break True))
                     else (log2, Next sim4)))"

text \<open>The loop over \<^verbatim>\<open>resourceList\<close>, with the variables \<^verbatim>\<open>added\<close> and
  \<^verbatim>\<open>success\<close> as arguments. The result is the error returned from inside the loop,
  or the value of \<^verbatim>\<open>success\<close> when the loop is left.\<close>

fun schedule_resources ::
  "('sim, 'pod, 'res, 'node, 'cfg, 'kc, 'cc) env \<Rightarrow> bool \<Rightarrow> bool \<Rightarrow> nat \<Rightarrow> nat \<Rightarrow>
     'res ResourceInfo list \<Rightarrow> bool \<Rightarrow> bool \<Rightarrow> 'sim \<Rightarrow> 'pod event list \<times> (error + bool)" where
  "schedule_resources E greed interactive i j [] added success sim = ([], Inr success)"
| "schedule_resources E greed interactive i j (r # rs) added success sim =
     (case schedule_one E greed interactive i j r added sim of
        (lg, Break s) \<Rightarrow> (lg, Inr s)
      | (lg, Return e) \<Rightarrow> (lg, Inl e)
      | (lg, Next sim') \<Rightarrow>
          (let (lg', res) = schedule_resources E greed interactive i (Suc j) rs True True sim'
           in (lg @ lg', res)))"

text \<open>The head of the body of the search loop: a new simulator, synchronised from the
  cluster, with \<open>i\<close> new nodes.\<close>

definition round_setup ::
  "('sim, 'pod, 'res, 'node, 'cfg, 'kc, 'cc) env \<Rightarrow> DefaulterApply \<Rightarrow> 'node \<Rightarrow> 'kc option \<Rightarrow>
     'cc \<Rightarrow> nat \<Rightarrow> 'pod event list \<times> (error + 'sim)" where
  "round_setup E applier newNode kubeClient cc i =
     (case sim_new E kubeClient cc of
        Inl e \<Rightarrow> ([EvNew], Inl e)
      | Inr sim0 \<Rightarrow>
          (case create_fake_cluster E (CustomCluster (Cluster applier)) (run_scheduler E sim0) of
             Inl e \<Rightarrow>
               ([EvNew, EvRunScheduler, EvCreateFakeCluster (CustomCluster (Cluster applier))],
                Inl (''create fake cluster failed: '' @ e))
           | Inr sim1 \<Rightarrow>
               (case add_new_node E newNode i sim1 of
                  Inl e \<Rightarrow>
                    ([EvNew, EvRunScheduler,
                      EvCreateFakeCluster (CustomCluster (Cluster applier)), EvAddNewNode i],
                     Inl e)
                | Inr sim2 \<Rightarrow>
                    ([EvNew, EvRunScheduler,
                      EvCreateFakeCluster (CustomCluster (Cluster applier)), EvAddNewNode i],
                     Inr sim2))))"

text \<open>The body of the search loop up to \<^verbatim>\<open>sim.Close()\<close>. The result is the error
  returned from inside the body, or the value of \<^verbatim>\<open>success\<close> after the round.\<close>

definition run_round ::
  "('sim, 'pod, 'res, 'node, 'cfg, 'kc, 'cc) env \<Rightarrow> DefaulterApply \<Rightarrow> Options \<Rightarrow> 'node \<Rightarrow>
     'kc option \<Rightarrow> 'cc \<Rightarrow> 'res ResourceInfo list \<Rightarrow> nat \<Rightarrow> 'pod event list \<times> (error + bool)" where
  "run_round E applier opts newNode kubeClient cc resourceList i =
     (case round_setup E applier newNode kubeClient cc i of
        (lg, Inl e) \<Rightarrow> (lg, Inl e)
      | (lg, Inr sim) \<Rightarrow>
          (case schedule_resources E (UseGreed applier) (Interactive opts) i 0 resourceList
                  False False sim of
             (lg', Inl e) \<Rightarrow> (lg @ lg', Inl e)
           | (lg', Inr success) \<Rightarrow> (lg @ lg' @ [EvClose], Inr success)))"

text \<open>\<^verbatim>\<open>for i := 0; i < 100; i++\<close>, from \<open>i\<close> on, over the body \<open>round\<close>. The result
  is the value \<^verbatim>\<open>Run\<close> returns.\<close>

function search ::
  "(nat \<Rightarrow> 'pod event list \<times> (error + bool)) \<Rightarrow> nat \<Rightarrow> 'pod event list \<times> error option" where
  "search round i =
     (if i < 100 then
        (case round i of
           (lg, Inl e) \<Rightarrow> (lg, Some e)
         | (lg, Inr success) \<Rightarrow>
             if success then (lg @ [EvPrintCongrats], None)
             else (let (lg', r) = search round (Suc i) in (lg @ lg', r)))
      else ([], None))"
  by pat_completeness auto
termination
  by (relation "measure (\<lambda>(round, i). 100 - i)") auto

declare search.simps [simp del]

section \<open>\<^verbatim>\<open>Run\<close>\<close>

text \<open>Steps 0 to 4: everything \<^verbatim>\<open>Run\<close> does before the search, with the values the
  search works on: the receiver, \<^verbatim>\<open>resourceList\<close>, \<^verbatim>\<open>newNode\<close>, \<^verbatim>\<open>kubeClient\<close>
  and \<^verbatim>\<open>cc\<close>.\<close>

definition prepare ::
  "('sim, 'pod, 'res, 'node, 'cfg, 'kc, 'cc) env \<Rightarrow> Options \<Rightarrow>
     error + (DefaulterApply \<times> 'res ResourceInfo list \<times> 'node \<times> 'kc option \<times> 'cc)" where
  "prepare E opts =
     (case ParseArgsAndConfigFile E opts of
        Inl e \<Rightarrow> Inl (''Parse Error: '' @ e @ '' '')
      | Inr applier \<Rightarrow>
          (case Validate E applier of
             Some e \<Rightarrow> Inl (''Invalid information: '' @ e @ '' '')
           | None \<Rightarrow>
               (case load_resources E (AppList applier) of
                  Inl e \<Rightarrow> Inl e
                | Inr resourceList \<Rightarrow>
                    (case decode_yaml_node E (NewNode applier) of
                       None \<Rightarrow>
                         Inl (''The NewNode file('' @ NewNode applier @ '') is not a Node yaml '')
                     | Some newNode \<Rightarrow>
                         (case generateKubeClient E applier of
                            Inl e \<Rightarrow> Inl (''Failed to get kubeclient: '' @ e @ '' '')
                          | Inr kubeClient \<Rightarrow>
                              (case getAndSetSchedulerConfig E applier of
                                 Inl e \<Rightarrow> Inl e
                               | Inr cc \<Rightarrow>
                                   Inr (applier, resourceList, newNode, kubeClient, cc)))))))"

text \<open>\<^verbatim>\<open>Run\<close>: what it prints and calls during the search, and the error it
  returns.\<close>

definition Run ::
  "('sim, 'pod, 'res, 'node, 'cfg, 'kc, 'cc) env \<Rightarrow> Options \<Rightarrow> 'pod event list \<times> error option" where
  "Run E opts =
     (case prepare E opts of
        Inl e \<Rightarrow> ([], Some e)
      | Inr (applier, resourceList, newNode, kubeClient, cc) \<Rightarrow>
          search (run_round E applier opts newNode kubeClient cc resourceList) 0)"

section \<open>Reading the events\<close>

text \<open>The events of the rounds \<open>i\<close> to \<open>k - 1\<close>, in the order of the rounds.\<close>

definition round_logs ::
  "(nat \<Rightarrow> 'pod event list \<times> (error + bool)) \<Rightarrow> nat \<Rightarrow> nat \<Rightarrow> 'pod event list" where
  "round_logs round i k = concat (map (\<lambda>j. fst (round j)) [i..<k])"

text \<open>What a list of events says about the rounds and the applications: the numbers of
  new nodes asked for (\<open>trials\<close>), the pods generated for each application,
  the daemon pods expanded, the batches handed to \<^verbatim>\<open>SchedulePods\<close>, the names of
  the applications that were submitted, that were scheduled and that failed, and the
  config maps saved.\<close>

fun gen_of :: "'pod event \<Rightarrow> 'pod list list" where
  "gen_of (EvGeneratePods g) = [g]"
| "gen_of _ = []"

fun daemon_of :: "'pod event \<Rightarrow> 'pod list list" where
  "daemon_of (EvDaemonPods d) = [d]"
| "daemon_of _ = []"

fun batch_of :: "'pod event \<Rightarrow> 'pod list list" where
  "batch_of (EvSchedulePods b e) = [b]"
| "batch_of _ = []"

fun attempted_of :: "'pod event \<Rightarrow> string list" where
  "attempted_of (EvPrintCount n a b) = [n]"
| "attempted_of _ = []"

fun placed_of :: "'pod event \<Rightarrow> string list" where
  "placed_of (EvPrintSuccess n) = [n]"
| "placed_of _ = []"

fun failed_of :: "'pod event \<Rightarrow> string list" where
  "failed_of (EvPrintFail n e) = [n]"
| "failed_of _ = []"

fun saved_of :: "'pod event \<Rightarrow> (string \<times> error option) list" where
  "saved_of (EvSaveConfigMap f e) = [(f, e)]"
| "saved_of _ = []"

fun trial_of :: "'pod event \<Rightarrow> nat list" where
  "trial_of (EvAddNewNode n) = [n]"
| "trial_of _ = []"

definition trials :: "'pod event list \<Rightarrow> nat list" where
  "trials lg = concat (map trial_of lg)"

definition gens :: "'pod event list \<Rightarrow> 'pod list list" where
  "gens lg = concat (map gen_of lg)"

definition daemons :: "'pod event list \<Rightarrow> 'pod list list" where
  "daemons lg = concat (map daemon_of lg)"

definition batches :: "'pod event list \<Rightarrow> 'pod list list" where
  "batches lg = concat (map batch_of lg)"

definition attempted :: "'pod event list \<Rightarrow> string list" where
  "attempted lg = concat (map attempted_of lg)"

definition placed :: "'pod event list \<Rightarrow> string list" where
  "placed lg = concat (map placed_of lg)"

definition failed :: "'pod event list \<Rightarrow> string list" where
  "failed lg = concat (map failed_of lg)"

definition saved :: "'pod event list \<Rightarrow> (string \<times> error option) list" where
  "saved lg = concat (map saved_of lg)"

text \<open>The events of the loop over \<^verbatim>\<open>resourceList\<close>, as opposed to those of the
  search loop around it.\<close>

fun workload_event :: "'pod event \<Rightarrow> bool" where
  "workload_event EvNew = False"
| "workload_event EvRunScheduler = False"
| "workload_event (EvCreateFakeCluster c) = False"
| "workload_event (EvAddNewNode n) = False"
| "workload_event EvClose = False"
| "workload_event EvPrintCongrats = False"
| "workload_event _ = True"

text \<open>\<^verbatim>\<open>Run\<close> does not return the trial size it stops at. It shows in the output:
  the search has succeeded when the congratulation is printed, and the trial size is
  then the number of simulators built so far, less one.\<close>

definition answer :: "'pod event list \<Rightarrow> nat option" where
  "answer lg = (if EvPrintCongrats \<in> set lg then Some (count_list lg EvNew - 1) else None)"

section \<open>A small cluster to run the model on\<close>

text \<open>
  A simulator is the number of free slots, a pod the number of slots it takes, and the
  resources of an application the number of its pods, each taking one slot. The base
  cluster has as many slots as its description has characters, the new node as many as
  its file name, and an application as many pods as its path. There is one daemon pod,
  which takes no slot. \<open>spec\<close> is what the configuration file holds, \<open>save_ok\<close>
  whether the config map can be written, \<open>reply\<close> what the operator answers.
\<close>

text \<open>
  The \<^verbatim>\<open>sort.Sort\<close> of the small cluster: one pass of Shell's sort with gap 6, then
  an insertion sort, which is how \<^verbatim>\<open>sort.Sort\<close> treated a queue of at most 12
  elements up to Go 1.18. Both work on the keys and record the calls of \<^verbatim>\<open>Swap\<close>.
  \<open>less_swap i j\<close> is \<^verbatim>\<open>if data.Less(i, j) { data.Swap(i, j) }\<close>, and
  \<open>insert_down j\<close> the loop
  \<^verbatim>\<open>for ; j > 0 && data.Less(j, j-1); j-- { data.Swap(j, j-1) }\<close>.
\<close>

definition less_swap ::
  "nat \<Rightarrow> nat \<Rightarrow> nat list \<times> (nat \<times> nat) list \<Rightarrow> nat list \<times> (nat \<times> nat) list" where
  "less_swap i j = (\<lambda>(ks, sw). if ks ! i < ks ! j then (Swap i j ks, sw @ [(i, j)]) else (ks, sw))"

fun insert_down :: "nat \<Rightarrow> nat list \<times> (nat \<times> nat) list \<Rightarrow> nat list \<times> (nat \<times> nat) list" where
  "insert_down 0 (ks, sw) = (ks, sw)"
| "insert_down (Suc j) (ks, sw) =
     (if ks ! Suc j < ks ! j then insert_down j (Swap (Suc j) j ks, sw @ [(Suc j, j)])
      else (ks, sw))"

definition shell_insertion_sort :: "nat list \<Rightarrow> (nat \<times> nat) list" where
  "shell_insertion_sort ks =
     snd (fold insert_down [1..<length ks]
            (fold (\<lambda>i. less_swap i (i - 6)) [6..<length ks] (ks, [])))"

definition demo_env ::
  "SimonSpec \<Rightarrow> bool \<Rightarrow> bool \<Rightarrow> (nat, nat, nat, nat, unit, unit, unit) env" where
  "demo_env spec save_ok reply =
     \<lparr>read_file = (\<lambda>p. Inr p),
      yaml_to_json = (\<lambda>f. Inr f),
      json_unmarshal = (\<lambda>j. Inr spec),
      stat = (\<lambda>p. None),
      process_chart = (\<lambda>n p. Inr p),
      parse_file_path = (\<lambda>p. Inr [p]),
      get_objects_from_files = (\<lambda>ps. Inr (length (concat ps))),
      decode_yaml_node = (\<lambda>p. Some (length p)),
      get_master_from_kube_config = (\<lambda>p. Inr p),
      build_config_from_flags = (\<lambda>m p. Inr ()),
      new_for_config = (\<lambda>c. Inr ()),
      scheme_convert = None,
      init_kube_scheduler_configuration = (\<lambda>g f. Inr ()),
      sim_new = (\<lambda>kc cc. Inr 0),
      run_scheduler = (\<lambda>s. s),
      create_fake_cluster = (\<lambda>c s. Inr (length c)),
      add_new_node = (\<lambda>n i s. Inr (s + n * i)),
      generate_pods = (\<lambda>s r. (replicate r 1, s)),
      daemon_pods = (\<lambda>s. ([0], s)),
      get_nodes = (\<lambda>s. []),
      priority = (\<lambda>ns ps p. p),
      sort_Sort = shell_insertion_sort,
      pods_without_node_name = length,
      schedule_pods = (\<lambda>ps s. if sum_list ps \<le> s then (None, s - sum_list ps)
                               else (Some ''unschedulable'', s)),
      save_config_map = (\<lambda>f s. (if save_ok then None else Some ''read-only file system'', s)),
      config_map_file_name = ''configmap.yaml'',
      confirm = (\<lambda>i j p. reply)\<rparr>"

text \<open>The options, and the configuration of a session on a base cluster of two slots,
  with the new node described in \<open>node\<close> and the applications \<open>apps\<close>; then the
  receiver as \<^verbatim>\<open>ParseArgsAndConfigFile\<close> fills it from them.\<close>

definition demo_opts :: "bool \<Rightarrow> Options" where
  "demo_opts ask =
     \<lparr>SimonConfig = ''simon.yaml'', DefaultSchedulerConfigFile = [],
      UseGreedOpt = False, Interactive = ask\<rparr>"

definition demo_spec :: "string \<Rightarrow> AppInfo list \<Rightarrow> SimonSpec" where
  "demo_spec node apps =
     \<lparr>Cluster = \<lparr>CustomCluster = ''cc'', KubeConfig = []\<rparr>, AppList = apps, NewNode = node\<rparr>"

definition demo_applier :: "string \<Rightarrow> AppInfo list \<Rightarrow> DefaulterApply" where
  "demo_applier node apps =
     \<lparr>Cluster = \<lparr>CustomCluster = ''cc'', KubeConfig = []\<rparr>, AppList = apps, NewNode = node,
      SchedulerConfig = [], UseGreed = False\<rparr>"

definition app_a :: AppInfo where
  "app_a = \<lparr>Name = ''a'', Path = ''aaa'', Chart = False\<rparr>"

definition app_b :: AppInfo where
  "app_b = \<lparr>Name = ''b'', Path = ''b'', Chart = False\<rparr>"

section \<open>Properties of the search loop\<close>

lemma search_stop: "\<not> i < 100 \<Longrightarrow> search round i = ([], None)"
  by (simp add: search.simps)

lemma search_fatal:
  "i < 100 \<Longrightarrow> snd (round i) = Inl e \<Longrightarrow> search round i = (fst (round i), Some e)"
  by (cases "round i") (simp add: search.simps [of round i] split: prod.splits)

lemma search_success:
  "i < 100 \<Longrightarrow> snd (round i) = Inr True \<Longrightarrow>
     search round i = (fst (round i) @ [EvPrintCongrats], None)"
  by (cases "round i") (simp add: search.simps [of round i] split: prod.splits)

lemma search_next:
  "i < 100 \<Longrightarrow> snd (round i) = Inr False \<Longrightarrow>
     search round i = (fst (round i) @ fst (search round (Suc i)), snd (search round (Suc i)))"
  by (cases "round i") (simp add: search.simps [of round i] split: prod.splits)

lemma round_logs_Suc:
  "i \<le> k \<Longrightarrow> round_logs round i (Suc k) = round_logs round i k @ fst (round k)"
  by (simp add: round_logs_def)

lemma search_skip:
  "i \<le> k \<Longrightarrow> k \<le> 100 \<Longrightarrow> (\<forall>j. i \<le> j \<and> j < k \<longrightarrow> snd (round j) = Inr False) \<Longrightarrow>
     search round i = (round_logs round i k @ fst (search round k), snd (search round k))"
proof (induction k)
  case 0
  then show ?case by (simp add: round_logs_def)
next
  case (Suc k)
  show ?case
  proof (cases "i = Suc k")
    case True
    then show ?thesis by (simp add: round_logs_def)
  next
    case False
    with Suc.prems have ik: "i \<le> k" and k: "k < 100" by simp_all
    from Suc.prems have fk: "snd (round k) = Inr False" using ik by simp
    have "search round i = (round_logs round i k @ fst (search round k), snd (search round k))"
      using Suc.IH ik k Suc.prems(3) by simp
    moreover have "round_logs round i (Suc k) = round_logs round i k @ fst (round k)"
      using ik by (simp add: round_logs_def)
    ultimately show ?thesis using search_next [of k round, OF k fk] by simp
  qed
qed

lemma search_first_success:
  assumes "m < 100" and "\<forall>j<m. snd (round j) = Inr False" and "snd (round m) = Inr True"
  shows "search round 0 = (round_logs round 0 (Suc m) @ [EvPrintCongrats], None)"
proof -
  have "search round 0 = (round_logs round 0 m @ fst (search round m), snd (search round m))"
    by (rule search_skip) (use assms in simp_all)
  moreover have "search round m = (fst (round m) @ [EvPrintCongrats], None)"
    by (rule search_success) (use assms in simp_all)
  ultimately show ?thesis by (simp only: round_logs_Suc [of 0 m round] fst_conv snd_conv append_assoc le0)
qed

lemma search_first_fatal:
  assumes "m < 100" and "\<forall>j<m. snd (round j) = Inr False" and "snd (round m) = Inl e"
  shows "search round 0 = (round_logs round 0 (Suc m), Some e)"
proof -
  have "search round 0 = (round_logs round 0 m @ fst (search round m), snd (search round m))"
    by (rule search_skip) (use assms in simp_all)
  moreover have "search round m = (fst (round m), Some e)"
    by (rule search_fatal) (use assms in simp_all)
  ultimately show ?thesis by (simp only: round_logs_Suc [of 0 m round] fst_conv snd_conv le0)
qed

lemma search_exhausted:
  assumes "\<forall>j<100. snd (round j) = Inr False"
  shows "search round 0 = (round_logs round 0 100, None)"
proof -
  have "search round 0 = (round_logs round 0 100 @ fst (search round 100), snd (search round 100))"
    by (rule search_skip) (use assms in simp_all)
  moreover have "search round 100 = ([], None)"
    by (rule search_stop) simp
  ultimately show ?thesis by (simp only: fst_conv snd_conv append_Nil2)
qed

lemma first_stop:
  fixes round :: "nat \<Rightarrow> 'pod event list \<times> (error + bool)"
  assumes "\<exists>j<100. snd (round j) \<noteq> Inr False"
  obtains m where "m < 100" and "snd (round m) \<noteq> Inr False" and "\<forall>j<m. snd (round j) = Inr False"
proof -
  define P where "P j \<longleftrightarrow> j < 100 \<and> snd (round j) \<noteq> Inr False" for j
  define m where "m = (LEAST j. P j)"
  from assms obtain j0 where "P j0" unfolding P_def by blast
  then have m: "P m" unfolding m_def by (rule LeastI)
  have "snd (round j) = Inr False" if "j < m" for j
  proof (rule ccontr)
    assume "snd (round j) \<noteq> Inr False"
    moreover from that m have "j < 100" unfolding P_def by simp
    ultimately have "P j" unfolding P_def by simp
    then have "m \<le> j" unfolding m_def by (rule Least_le)
    with that show False by simp
  qed
  with m that show thesis unfolding P_def by blast
qed

lemma search_cases:
  fixes round :: "nat \<Rightarrow> 'pod event list \<times> (error + bool)"
  obtains (success) m where "m < 100" and "\<forall>j<m. snd (round j) = Inr False"
      and "snd (round m) = Inr True"
      and "search round 0 = (round_logs round 0 (Suc m) @ [EvPrintCongrats], None)"
  | (fatal) m e where "m < 100" and "\<forall>j<m. snd (round j) = Inr False"
      and "snd (round m) = Inl e"
      and "search round 0 = (round_logs round 0 (Suc m), Some e)"
  | (exhausted) "\<forall>j<100. snd (round j) = Inr False"
      and "search round 0 = (round_logs round 0 100, None)"
proof (cases "\<exists>j<100. snd (round j) \<noteq> Inr False")
  case True
  then obtain m where m: "m < 100" "snd (round m) \<noteq> Inr False" "\<forall>j<m. snd (round j) = Inr False"
    by (rule first_stop)
  show thesis
  proof (cases "snd (round m)")
    case (Inl e)
    with m show thesis by (intro fatal [of m e] search_first_fatal) simp_all
  next
    case (Inr b)
    with m have t: "snd (round m) = Inr True" by (cases b) simp_all
    with m show thesis by (intro success [of m] search_first_success) simp_all
  qed
next
  case False
  then have "\<forall>j<100. snd (round j) = Inr False" by blast
  then show thesis by (intro exhausted search_exhausted) simp_all
qed

section \<open>Properties of the loop over the applications\<close>

lemma gens_append [simp]: "gens (xs @ ys) = gens xs @ gens ys" by (simp add: gens_def)
lemma daemons_append [simp]: "daemons (xs @ ys) = daemons xs @ daemons ys" by (simp add: daemons_def)
lemma batches_append [simp]: "batches (xs @ ys) = batches xs @ batches ys" by (simp add: batches_def)
lemma attempted_append [simp]: "attempted (xs @ ys) = attempted xs @ attempted ys" by (simp add: attempted_def)
lemma placed_append [simp]: "placed (xs @ ys) = placed xs @ placed ys" by (simp add: placed_def)
lemma failed_append [simp]: "failed (xs @ ys) = failed xs @ failed ys" by (simp add: failed_def)
lemma saved_append [simp]: "saved (xs @ ys) = saved xs @ saved ys" by (simp add: saved_def)

lemma schedule_one_workload:
  "e \<in> set (fst (schedule_one E greed interactive i j r added sim)) \<Longrightarrow> workload_event e"
  by (auto simp: schedule_one_def Let_def split: prod.splits option.splits if_splits)

lemma schedule_resources_workload:
  "e \<in> set (fst (schedule_resources E greed interactive i j rs added success sim)) \<Longrightarrow>
     workload_event e"
proof (induction rs arbitrary: j added success sim)
  case Nil
  then show ?case by simp
next
  case (Cons r rs)
  obtain lg fl where one: "schedule_one E greed interactive i j r added sim = (lg, fl)"
    by (cases "schedule_one E greed interactive i j r added sim")
  have lg: "e \<in> set lg \<Longrightarrow> workload_event e"
    using schedule_one_workload [of e E greed interactive i j r added sim] one by simp
  show ?case
  proof (cases fl)
    case (Next sim')
    obtain lg' res where rest:
      "schedule_resources E greed interactive i (Suc j) rs True True sim' = (lg', res)"
      by (cases "schedule_resources E greed interactive i (Suc j) rs True True sim'")
    have "e \<in> set lg' \<Longrightarrow> workload_event e"
      using Cons.IH [of "Suc j" True True sim'] rest by simp
    with Cons.prems one Next rest lg show ?thesis by auto
  next
    case (Break s)
    with Cons.prems one lg show ?thesis by simp
  next
    case (Return err)
    with Cons.prems one lg show ?thesis by simp
  qed
qed

section \<open>The ordering step\<close>

lemma mset_Swap: "mset (Swap i j xs) = mset xs"
  by (simp add: Swap_def mset_swap)

lemma length_Swap: "length (Swap i j xs) = length xs"
  by (simp add: Swap_def)

lemma map_Swap: "Swap i j (map f xs) = map f (Swap i j xs)"
  by (simp add: Swap_def map_update)

lemma mset_swaps: "mset (foldl (\<lambda>ps (i, j). Swap i j ps) pods sw) = mset pods"
  by (induction sw arbitrary: pods) (simp_all add: mset_Swap split: prod.splits)

lemma map_swaps:
  "foldl (\<lambda>ps (i, j). Swap i j ps) (map f pods) sw = map f (foldl (\<lambda>ps (i, j). Swap i j ps) pods sw)"
  by (induction sw arbitrary: pods) (simp_all add: map_Swap split: prod.splits)

lemma mset_order_pods: "mset (order_pods E greed key pods) = mset pods"
  by (simp add: order_pods_def mset_swaps)

text \<open>
  Claim C8, amended. The ordering step returns a permutation of the batch, whatever
  \<^verbatim>\<open>sort.Sort\<close> does with the queue. With the ordering strategy off it returns the
  batch as it is, in expansion order. With the strategy on, the result is a function of
  the batch and the keys of its pods: renaming the pods of a batch renames the pods of
  the result. Nothing holds the pods with equal keys in their input order.
\<close>

theorem order_pods_permutation:
  "mset (order_pods E greed key pods) = mset pods
   \<and> order_pods E False key pods = pods
   \<and> order_pods E greed key (map f pods) = map f (order_pods E greed (key \<circ> f) pods)"
  by (simp add: order_pods_def mset_swaps map_swaps)

text \<open>
  Claim C8 as stated fails on ties. On a batch of seven pods, with the tens of a pod
  as its key, the \<^verbatim>\<open>sort.Sort\<close> of the small cluster leaves the batch sorted by key
  and the two pods with key 2 exchanged.
\<close>

theorem order_pods_ties_counterexample:
  "order_pods (demo_env (demo_spec ''nn'' []) True True) True (\<lambda>p. p div 10)
       [20, 21, 30, 31, 32, 33, 10]
     = [10, 21, 20, 30, 31, 32, 33]
   \<and> sorted (map (\<lambda>p. p div 10) [10, 21, 20, 30, 31, 32, 33 :: nat])
   \<and> filter (\<lambda>p. p div 10 = 2) [10, 21, 20, 30, 31, 32, 33 :: nat]
       \<noteq> filter (\<lambda>p. p div 10 = 2) [20, 21, 30, 31, 32, 33, 10]"
  by code_simp

section \<open>The cluster source\<close>

lemma validate_apps_message:
  "validate_apps E apps \<noteq> Some ''only one of values of both kubeConfig and customConfig must exist''"
  by (induction apps) (simp_all split: option.splits)

lemma Validate_cluster_error:
  "Validate E applier = Some ''only one of values of both kubeConfig and customConfig must exist''
   \<longleftrightarrow> (KubeConfig (Cluster applier) = [] \<longleftrightarrow> CustomCluster (Cluster applier) = [])"
  by (auto simp: Validate_def Let_def validate_apps_message)

text \<open>
  Claim C9. \<^verbatim>\<open>Validate\<close> reports the error about \<^verbatim>\<open>kubeConfig\<close> and
  \<^verbatim>\<open>customConfig\<close> exactly when both are given or neither is. A session whose
  configuration file was read and gives both or neither ends in \<^verbatim>\<open>Run\<close> with that
  error, before any round: no simulator is built and nothing is printed.
\<close>

theorem cluster_source_exactly_one:
  assumes "ParseArgsAndConfigFile E opts = Inr applier"
  shows "(Validate E applier
            = Some ''only one of values of both kubeConfig and customConfig must exist''
          \<longleftrightarrow> (KubeConfig (Cluster applier) = [] \<longleftrightarrow> CustomCluster (Cluster applier) = []))
       \<and> ((KubeConfig (Cluster applier) = [] \<longleftrightarrow> CustomCluster (Cluster applier) = []) \<longrightarrow>
            Run E opts =
              ([], Some (''Invalid information: ''
                         @ ''only one of values of both kubeConfig and customConfig must exist''
                         @ '' '')))"
proof -
  have "Run E opts =
          ([], Some (''Invalid information: ''
                     @ ''only one of values of both kubeConfig and customConfig must exist''
                     @ '' ''))"
    if "Validate E applier
          = Some ''only one of values of both kubeConfig and customConfig must exist''"
    using assms that by (simp add: Run_def prepare_def)
  then show ?thesis
    using Validate_cluster_error [of E applier] by blast
qed

theorem cluster_source_exactly_one_witness:
  "ParseArgsAndConfigFile
       (demo_env \<lparr>Cluster = \<lparr>CustomCluster = ''cc'', KubeConfig = ''kc''\<rparr>, AppList = [],
                  NewNode = ''nn''\<rparr> True True) (demo_opts False)
     = Inr \<lparr>Cluster = \<lparr>CustomCluster = ''cc'', KubeConfig = ''kc''\<rparr>, AppList = [],
            NewNode = ''nn'', SchedulerConfig = [], UseGreed = False\<rparr>
   \<and> Run (demo_env \<lparr>Cluster = \<lparr>CustomCluster = ''cc'', KubeConfig = ''kc''\<rparr>, AppList = [],
                  NewNode = ''nn''\<rparr> True True) (demo_opts False)
     = ([], Some ''Invalid information: only one of values of both kubeConfig and customConfig must exist '')"
proof -
  have parse: "ParseArgsAndConfigFile
       (demo_env \<lparr>Cluster = \<lparr>CustomCluster = ''cc'', KubeConfig = ''kc''\<rparr>, AppList = [],
                  NewNode = ''nn''\<rparr> True True) (demo_opts False)
     = Inr \<lparr>Cluster = \<lparr>CustomCluster = ''cc'', KubeConfig = ''kc''\<rparr>, AppList = [],
            NewNode = ''nn'', SchedulerConfig = [], UseGreed = False\<rparr>"
    by (simp add: ParseArgsAndConfigFile_def demo_env_def demo_opts_def)
  show ?thesis
    using cluster_source_exactly_one [OF parse] parse by simp
qed

section \<open>Properties of a round\<close>

lemma workload_event_not_new: "workload_event e \<Longrightarrow> e \<noteq> EvNew \<and> e \<noteq> EvPrintCongrats"
  by (cases e) simp_all

lemma round_setup_events:
  "round_setup E applier newNode kubeClient cc i = (lg, r) \<Longrightarrow>
     count_list lg EvNew = 1 \<and> EvPrintCongrats \<notin> set lg"
  by (auto simp: round_setup_def split: sum.splits)

lemma workload_events_count:
  "(\<And>e. e \<in> set lg \<Longrightarrow> workload_event e) \<Longrightarrow>
     count_list lg EvNew = 0 \<and> EvPrintCongrats \<notin> set lg"
  using workload_event_not_new by (fastforce simp: count_list_0_iff)

lemma run_round_events:
  "count_list (fst (run_round E applier opts newNode kubeClient cc resourceList i)) EvNew = 1
   \<and> EvPrintCongrats \<notin> set (fst (run_round E applier opts newNode kubeClient cc resourceList i))"
proof -
  obtain lg r where st: "round_setup E applier newNode kubeClient cc i = (lg, r)"
    by (cases "round_setup E applier newNode kubeClient cc i")
  note s = round_setup_events [OF st]
  show ?thesis
  proof (cases r)
    case (Inl e)
    with st s show ?thesis by (simp add: run_round_def)
  next
    case (Inr sim)
    obtain lg' res where rest:
      "schedule_resources E (UseGreed applier) (Interactive opts) i 0 resourceList False False sim
         = (lg', res)"
      by (cases "schedule_resources E (UseGreed applier) (Interactive opts) i 0 resourceList
                   False False sim")
    have "count_list lg' EvNew = 0 \<and> EvPrintCongrats \<notin> set lg'"
      by (rule workload_events_count)
         (use schedule_resources_workload [of _ E "UseGreed applier" "Interactive opts" i 0
                resourceList False False sim] rest in simp)
    with st s Inr rest show ?thesis
      by (cases res) (simp_all add: run_round_def)
  qed
qed

lemma round_logs_events:
  assumes "\<And>j. count_list (fst (round j)) EvNew = 1 \<and> EvPrintCongrats \<notin> set (fst (round j))"
  shows "count_list (round_logs round 0 k) EvNew = k \<and> EvPrintCongrats \<notin> set (round_logs round 0 k)"
proof (induction k)
  case 0
  show ?case by (simp add: round_logs_def)
next
  case (Suc k)
  then show ?case using assms [of k] by (simp add: round_logs_Suc)
qed

lemma trials_append [simp]: "trials (xs @ ys) = trials xs @ trials ys"
  by (simp add: trials_def)





lemma answer_none:
  assumes "\<And>j. count_list (fst (round j)) EvNew = 1 \<and> EvPrintCongrats \<notin> set (fst (round j))"
  shows "answer (round_logs round 0 k) = None"
  using round_logs_events [of round k, OF assms] by (simp add: answer_def)


lemma Run_search:
  "prepare E opts = Inr (applier, resourceList, newNode, kubeClient, cc) \<Longrightarrow>
     Run E opts = search (run_round E applier opts newNode kubeClient cc resourceList) 0"
  by (simp add: Run_def)


lemma search_exhausted_events:
  fixes round :: "nat \<Rightarrow> 'pod event list \<times> (error + bool)"
  assumes "\<And>j. count_list (fst (round j)) EvNew = 1 \<and> EvPrintCongrats \<notin> set (fst (round j))"
    and "\<forall>j<100. snd (round j) = Inr False"
  shows "search round 0 = (round_logs round 0 100, None)"
    and "snd (search round 0) = None"
    and "answer (fst (search round 0)) = None"
    and "count_list (fst (search round 0)) EvNew = 100"
  using search_exhausted [OF assms(2)] round_logs_events [of round 100, OF assms(1)]
    answer_none [of round 100, OF assms(1)] by simp_all

lemma sum_list_order_pods:
  fixes pods :: "nat list"
  shows "sum_list (order_pods E greed key pods) = sum_list pods"
proof -
  have "sum_mset (mset (order_pods E greed key pods)) = sum_mset (mset pods)"
    by (simp only: mset_order_pods)
  then show ?thesis by (simp only: sum_mset_sum_list)
qed

section \<open>The small cluster\<close>

text \<open>Steps 0 to 4 succeed on the small cluster, whatever the options and the
  applications.\<close>

lemma demo_prepare_opts:
  "prepare (demo_env (demo_spec node apps) save_ok reply) opts
     = Inr (\<lparr>Cluster = \<lparr>CustomCluster = ''cc'', KubeConfig = []\<rparr>, AppList = apps, NewNode = node,
             SchedulerConfig = DefaultSchedulerConfigFile opts, UseGreed = UseGreedOpt opts\<rparr>,
            map (\<lambda>app. \<lparr>ResName = Name app, Resource = length (Path app)\<rparr>) apps,
            length node, None, ())"
proof -
  have l: "load_resources (demo_env (demo_spec node apps) save_ok reply) as
             = Inr (map (\<lambda>app. \<lparr>ResName = Name app, Resource = length (Path app)\<rparr>) as)" for as
    by (induction as) (simp_all add: demo_env_def)
  have v: "validate_apps (demo_env (demo_spec node apps) save_ok reply) as = None" for as
    by (induction as) (simp_all add: demo_env_def)
  have p: "ParseArgsAndConfigFile (demo_env (demo_spec node apps) save_ok reply) opts
             = Inr \<lparr>Cluster = \<lparr>CustomCluster = ''cc'', KubeConfig = []\<rparr>, AppList = apps,
                    NewNode = node, SchedulerConfig = DefaultSchedulerConfigFile opts,
                    UseGreed = UseGreedOpt opts\<rparr>"
    by (simp add: ParseArgsAndConfigFile_def demo_env_def demo_spec_def)
  have s: "stat (demo_env (demo_spec node apps) save_ok reply) = (\<lambda>p. None)"
    by (simp add: demo_env_def)
  have va: "Validate (demo_env (demo_spec node apps) save_ok reply)
              \<lparr>Cluster = \<lparr>CustomCluster = ''cc'', KubeConfig = []\<rparr>, AppList = apps,
               NewNode = node, SchedulerConfig = DefaultSchedulerConfigFile opts,
               UseGreed = UseGreedOpt opts\<rparr> = None"
    using v [of apps] by (simp add: Validate_def Let_def s)
  have d: "decode_yaml_node (demo_env (demo_spec node apps) save_ok reply) = (\<lambda>p. Some (length p))"
    by (simp add: demo_env_def)
  have g: "generateKubeClient (demo_env (demo_spec node apps) save_ok reply)
              \<lparr>Cluster = \<lparr>CustomCluster = ''cc'', KubeConfig = []\<rparr>, AppList = apps,
               NewNode = node, SchedulerConfig = DefaultSchedulerConfigFile opts,
               UseGreed = UseGreedOpt opts\<rparr> = Inr None"
    by (simp add: generateKubeClient_def)
  have c: "getAndSetSchedulerConfig (demo_env (demo_spec node apps) save_ok reply) applier = Inr ()"
    for applier
    by (simp add: getAndSetSchedulerConfig_def demo_env_def)
  show ?thesis
    by (simp add: prepare_def p va l d g c)
qed

lemma demo_prepare:
  "prepare (demo_env (demo_spec node apps) save_ok reply) (demo_opts ask)
     = Inr (demo_applier node apps,
            map (\<lambda>app. \<lparr>ResName = Name app, Resource = length (Path app)\<rparr>) apps,
            length node, None, ())"
  by (simp add: demo_prepare_opts) (simp add: demo_opts_def demo_applier_def)

text \<open>On a base cluster of two slots, with a new node that brings no slot, an
  application of three pods fails in every round, whatever the options.\<close>

lemma demo_round_fails:
  assumes "CustomCluster (Cluster applier) = ''cc''"
  shows "snd (run_round (demo_env spec save_ok reply) applier opts 0 None ()
                [\<lparr>ResName = ''a'', Resource = 3\<rparr>] j) = Inr False"
proof -
  have "round_setup (demo_env spec save_ok reply) applier 0 None () j
          = ([EvNew, EvRunScheduler, EvCreateFakeCluster ''cc'', EvAddNewNode j], Inr 2)"
    using assms by (simp add: round_setup_def demo_env_def)
  moreover have "snd (schedule_one (demo_env spec save_ok reply) greed ask j 0
                   \<lparr>ResName = ''a'', Resource = 3\<rparr> False 2) = Break False" for greed ask
  proof -
    have g: "generate_pods (demo_env spec save_ok reply) = (\<lambda>s r. (replicate r 1, s))"
      and dp: "daemon_pods (demo_env spec save_ok reply) = (\<lambda>s. ([0], s))"
      and sp: "schedule_pods (demo_env spec save_ok reply)
                 = (\<lambda>ps s. if sum_list ps \<le> s then (None, s - sum_list ps)
                            else (Some ''unschedulable'', s))"
      by (simp_all add: demo_env_def)
    show ?thesis
      by (simp add: schedule_one_def g dp sp sum_list_order_pods Let_def numeral_3_eq_3)
  qed
  then obtain lg where
    "schedule_one (demo_env spec save_ok reply) (UseGreed applier) (Interactive opts) j 0
       \<lparr>ResName = ''a'', Resource = 3\<rparr> False 2 = (lg, Break False)"
    by (metis prod.collapse)
  ultimately show ?thesis
    by (simp add: run_round_def)
qed

section \<open>The search order\<close>



section \<open>The end of a search without success\<close>

text \<open>
  Claim C3, amended. When each of the 100 rounds ends without success and without an
  error, \<^verbatim>\<open>Run\<close> returns \<^verbatim>\<open>nil\<close> after the last of them, having built 100
  simulators. It returns \<^verbatim>\<open>nil\<close> as well whenever the search has succeeded. The
  value returned does not tell the two apart; the output does, as the congratulation is
  printed after a success only.
\<close>

theorem exhausted_returns_nil:
  assumes "prepare E opts = Inr (applier, resourceList, newNode, kubeClient, cc)"
  shows "(let R = run_round E applier opts newNode kubeClient cc resourceList in
          ((\<forall>j<100. snd (R j) = Inr False) \<longrightarrow>
             Run E opts = (round_logs R 0 100, None)
             \<and> answer (fst (Run E opts)) = None
             \<and> count_list (fst (Run E opts)) EvNew = 100)
        \<and> (answer (fst (Run E opts)) \<noteq> None \<longrightarrow> snd (Run E opts) = None))"
proof -
  define R where "R = run_round E applier opts newNode kubeClient cc resourceList"
  have run: "Run E opts = search R 0"
    using assms by (simp add: Run_def R_def)
  have ev: "count_list (fst (R j)) EvNew = 1 \<and> EvPrintCongrats \<notin> set (fst (R j))" for j
    unfolding R_def by (rule run_round_events)
  have a: "(\<forall>j<100. snd (R j) = Inr False) \<longrightarrow>
             search R 0 = (round_logs R 0 100, None)
             \<and> answer (fst (search R 0)) = None
             \<and> count_list (fst (search R 0)) EvNew = 100"
    using search_exhausted_events [of R, OF ev] by blast
  have b: "answer (fst (search R 0)) \<noteq> None \<longrightarrow> snd (search R 0) = None"
  proof (cases rule: search_cases [of R])
    case (success m)
    then show ?thesis by simp
  next
    case (fatal m e)
    then show ?thesis using answer_none [of R "Suc m", OF ev] by simp
  next
    case exhausted
    then show ?thesis by simp
  qed
  from a b show ?thesis
    unfolding Let_def run R_def [symmetric] by blast
qed

theorem exhausted_returns_nil_witness:
  "snd (Run (demo_env (demo_spec [] [app_a]) True True) (demo_opts False)) = None
   \<and> answer (fst (Run (demo_env (demo_spec [] [app_a]) True True) (demo_opts False))) = None
   \<and> count_list (fst (Run (demo_env (demo_spec [] [app_a]) True True) (demo_opts False))) EvNew
       = 100"
proof -
  have p: "prepare (demo_env (demo_spec [] [app_a]) True True) (demo_opts False)
     = Inr (demo_applier [] [app_a], [\<lparr>ResName = ''a'', Resource = 3\<rparr>], 0, None, ())"
    by (simp add: demo_prepare app_a_def)
  have c: "CustomCluster (Cluster (demo_applier [] [app_a])) = ''cc''"
    by (simp add: demo_applier_def)
  let ?R = "run_round (demo_env (demo_spec [] [app_a]) True True) (demo_applier [] [app_a])
              (demo_opts False) 0 None () [\<lparr>ResName = ''a'', Resource = 3\<rparr>]"
  let ?D = "Run (demo_env (demo_spec [] [app_a]) True True) (demo_opts False)"
  have f: "\<forall>j<100. snd (?R j) = Inr False"
    using demo_round_fails [OF c] by simp
  have r: "?D = (round_logs ?R 0 100, None) \<and> answer (fst ?D) = None
           \<and> count_list (fst ?D) EvNew = 100"
    using exhausted_returns_nil [OF p] f unfolding Let_def by blast
  then have "snd ?D = None" by (metis snd_conv)
  with r show ?thesis by blast
qed

text \<open>
  Claim C3 as stated fails. On the small cluster, a session whose new node brings no
  slot runs 100 rounds without success, and one whose new node brings two slots
  succeeds in round 1. Both return \<^verbatim>\<open>nil\<close>.
\<close>

theorem exhausted_counterexample:
  "count_list (fst (Run (demo_env (demo_spec [] [app_a]) True True) (demo_opts False))) EvNew = 100
   \<and> EvPrintCongrats \<notin> set (fst (Run (demo_env (demo_spec [] [app_a]) True True) (demo_opts False)))
   \<and> snd (Run (demo_env (demo_spec [] [app_a]) True True) (demo_opts False)) = None
   \<and> EvPrintCongrats \<in> set (fst (Run (demo_env (demo_spec ''nn'' [app_a]) True True) (demo_opts False)))
   \<and> snd (Run (demo_env (demo_spec ''nn'' [app_a]) True True) (demo_opts False)) = None"
proof -
  let ?R = "run_round (demo_env (demo_spec [] [app_a]) True True) (demo_applier [] [app_a])
              (demo_opts False) 0 None () [\<lparr>ResName = ''a'', Resource = 3\<rparr>]"
  have p: "prepare (demo_env (demo_spec [] [app_a]) True True) (demo_opts False)
     = Inr (demo_applier [] [app_a], [\<lparr>ResName = ''a'', Resource = 3\<rparr>], 0, None, ())"
    by (simp add: demo_prepare app_a_def)
  have c: "CustomCluster (Cluster (demo_applier [] [app_a])) = ''cc''"
    by (simp add: demo_applier_def)
  have f: "\<forall>j<100. snd (?R j) = Inr False"
    using demo_round_fails [OF c] by simp
  have c100: "count_list (fst (search ?R 0)) EvNew = 100"
    by (rule search_exhausted_events(4) [OF run_round_events f])
  have an: "answer (fst (search ?R 0)) = None"
    by (rule search_exhausted_events(3) [OF run_round_events f])
  have sn: "snd (search ?R 0) = None"
    by (rule search_exhausted_events(2) [OF run_round_events f])
  have nc: "EvPrintCongrats \<notin> set (fst (search ?R 0))"
    using an by (simp add: answer_def split: if_splits)
  have dx:
    "count_list (fst (Run (demo_env (demo_spec [] [app_a]) True True) (demo_opts False))) EvNew = 100
     \<and> EvPrintCongrats \<notin> set (fst (Run (demo_env (demo_spec [] [app_a]) True True) (demo_opts False)))
     \<and> snd (Run (demo_env (demo_spec [] [app_a]) True True) (demo_opts False)) = None"
    unfolding Run_search [OF p] using c100 nc sn by blast
  have ds:
    "EvPrintCongrats \<in> set (fst (Run (demo_env (demo_spec ''nn'' [app_a]) True True) (demo_opts False)))
     \<and> snd (Run (demo_env (demo_spec ''nn'' [app_a]) True True) (demo_opts False)) = None"
    by code_simp
  from dx ds show ?thesis by simp
qed

section \<open>A session without applications\<close>

text \<open>
  Claim C6 does not hold of \<^verbatim>\<open>Run\<close>. When the list of applications is empty, the
  loop over \<^verbatim>\<open>resourceList\<close> has nothing to run, \<^verbatim>\<open>success\<close> keeps the value
  \<^verbatim>\<open>false\<close> it starts with, and no round succeeds, round 0 included. The
  congratulation is never printed; when no round ends in an error, the session runs all
  100 rounds, builds 100 simulators and returns \<^verbatim>\<open>nil\<close>.
\<close>

theorem empty_list_never_succeeds:
  assumes "prepare E opts = Inr (applier, resourceList, newNode, kubeClient, cc)"
    and "AppList applier = []"
  shows "resourceList = []
       \<and> (\<forall>j. snd (run_round E applier opts newNode kubeClient cc resourceList j) \<noteq> Inr True)
       \<and> answer (fst (Run E opts)) = None
       \<and> ((\<forall>j<100. \<forall>e. snd (round_setup E applier newNode kubeClient cc j) \<noteq> Inl e) \<longrightarrow>
            snd (Run E opts) = None \<and> count_list (fst (Run E opts)) EvNew = 100)"
proof -
  define R where "R = run_round E applier opts newNode kubeClient cc resourceList"
  have rl: "resourceList = []"
    using assms by (auto simp: prepare_def split: sum.splits option.splits)
  have run: "Run E opts = search R 0"
    using assms by (simp add: Run_def R_def)
  have ev: "count_list (fst (R j)) EvNew = 1 \<and> EvPrintCongrats \<notin> set (fst (R j))" for j
    unfolding R_def by (rule run_round_events)
  have nt: "snd (R j) \<noteq> Inr True" for j
    unfolding R_def rl by (simp add: run_round_def split: prod.splits sum.splits)
  have ok: "snd (R j) = Inr False"
    if "\<forall>e. snd (round_setup E applier newNode kubeClient cc j) \<noteq> Inl e" for j
    using that unfolding R_def rl
    by (cases "round_setup E applier newNode kubeClient cc j")
       (auto simp: run_round_def split: sum.splits)
  have a: "answer (fst (search R 0)) = None"
  proof (cases rule: search_cases [of R])
    case (success m)
    with nt [of m] show ?thesis by simp
  next
    case (fatal m e)
    then show ?thesis using answer_none [of R "Suc m", OF ev] by simp
  next
    case exhausted
    then show ?thesis using answer_none [of R 100, OF ev] by simp
  qed
  have b: "snd (search R 0) = None \<and> count_list (fst (search R 0)) EvNew = 100"
    if "\<forall>j<100. \<forall>e. snd (round_setup E applier newNode kubeClient cc j) \<noteq> Inl e"
  proof -
    from that ok have "\<forall>j<100. snd (R j) = Inr False" by blast
    then show ?thesis using search_exhausted_events(2,4) [of R, OF ev] by blast
  qed
  from rl nt a b show ?thesis
    unfolding run R_def [symmetric] by blast
qed

theorem empty_list_never_succeeds_witness:
  "answer (fst (Run (demo_env (demo_spec ''nn'' []) True True) (demo_opts False))) = None
   \<and> snd (Run (demo_env (demo_spec ''nn'' []) True True) (demo_opts False)) = None
   \<and> count_list (fst (Run (demo_env (demo_spec ''nn'' []) True True) (demo_opts False))) EvNew
       = 100"
proof -
  have p: "prepare (demo_env (demo_spec ''nn'' []) True True) (demo_opts False)
     = Inr (demo_applier ''nn'' [], [], 2, None, ())"
    by (simp add: demo_prepare)
  have a: "AppList (demo_applier ''nn'' []) = []"
    by (simp add: demo_applier_def)
  have s: "snd (round_setup (demo_env (demo_spec ''nn'' []) True True) (demo_applier ''nn'' [])
                  2 None () j) \<noteq> Inl e" for j e
    by (simp add: round_setup_def demo_env_def)
  show ?thesis
    using empty_list_never_succeeds [OF p a] s by simp
qed

section \<open>The bound of the search\<close>




end
